theory Spec2Isabelle
  imports Main
begin

section \<open>C strings in the line buffer of argv-shell.c\<close>

text \<open>
  The interpreter of the tutorial (argv-shell.c) keeps one heap buffer \<open>line\<close>, filled by
  \<open>getline\<close>, and an array \<open>char *words[256]\<close> of pointers into that buffer. The buffer
  is modelled as the list of its bytes, a pointer into it as an offset, and a pointer
  that may be \<open>NULL\<close> as a \<open>nat option\<close>.
\<close>

abbreviation NUL :: char where
  "NUL \<equiv> CHR 0x00"

abbreviation newline :: char where
  "newline \<equiv> CHR 0x0A"

abbreviation space :: char where
  "space \<equiv> CHR '' ''"

type_synonym pointer = "nat option"

text \<open>The C string that starts at offset \<open>p\<close>: the bytes up to the first terminator.\<close>

definition cstring_at :: "char list \<Rightarrow> nat \<Rightarrow> string" where
  "cstring_at buf p = takeWhile (\<lambda>c. c \<noteq> NUL) (drop p buf)"

text \<open>
  \<open>strchr(s, c)\<close> for a character \<open>c\<close> other than the terminator: the offset of the first
  \<open>c\<close> before the terminator, or \<open>NULL\<close>. \<open>strchr_list\<close> scans the bytes from the start
  pointer on; every buffer that \<open>getline\<close> returns ends with a terminator, so the scan
  stops inside the buffer.
\<close>

fun strchr_list :: "char list \<Rightarrow> char \<Rightarrow> nat option" where
  "strchr_list [] c = None"
| "strchr_list (x # xs) c =
     (if x = c then Some 0
      else if x = NUL then None
      else map_option Suc (strchr_list xs c))"

definition strchr :: "char list \<Rightarrow> nat \<Rightarrow> char \<Rightarrow> pointer" where
  "strchr buf p c = map_option (\<lambda>k. p + k) (strchr_list (drop p buf) c)"

section \<open>Reading a line\<close>

text \<open>
  \<open>getline(&line, &line_size, stdin)\<close> on the bytes still unread: the line up to and
  including the first newline (or everything, when there is no newline), and the bytes
  left. \<open>None\<close> is the return value \<open>-1\<close> at end of input; otherwise the return value
  \<open>n\<close> is the length of the line, which is positive.
\<close>

fun getline :: "string \<Rightarrow> (string \<times> string) option" where
  "getline [] = None"
| "getline (c # cs) =
     (if c = newline then Some ([c], cs)
      else (case getline cs of
              None \<Rightarrow> Some ([c], [])
            | Some (l, rest) \<Rightarrow> Some (c # l, rest)))"

text \<open>
  The buffer after \<open>getline\<close> holds the \<open>n\<close> bytes of the line and a terminator; the
  statement \<open>line[n - 1] = '\0'\<close> then overwrites the last byte of the line.
\<close>

definition line_buffer :: "string \<Rightarrow> char list" where
  "line_buffer line = line @ [NUL]"

definition erase_last :: "string \<Rightarrow> char list" where
  "erase_last line = (line_buffer line)[length line - 1 := NUL]"

section \<open>Splitting the line into words\<close>

datatype fault = Out_of_bounds nat | Null_dereference

text \<open>
  The loop \<open>for (int i = 1; words[i] = strchr(words[i - 1], ' '); ++i) *(words[i]++) = '\0';\<close>
  on the buffer, the array and \<open>i\<close>. An access to \<open>words[i]\<close> with \<open>i\<close> outside the array is
  a fault; so is a search from a \<open>NULL\<close> pointer.
\<close>

function split_loop ::
  "char list \<Rightarrow> pointer list \<Rightarrow> nat \<Rightarrow> fault + (char list \<times> pointer list)" where
  "split_loop buf words i =
     (if length words \<le> i - 1 then Inl (Out_of_bounds (i - 1))
      else (case words ! (i - 1) of
              None \<Rightarrow> Inl Null_dereference
            | Some p \<Rightarrow>
                if length words \<le> i then Inl (Out_of_bounds i)
                else (case strchr buf p space of
                        None \<Rightarrow> Inr (buf, words[i := None])
                      | Some q \<Rightarrow>
                          split_loop (buf[q := NUL]) (words[i := Some (Suc q)]) (Suc i))))"
  by pat_completeness auto
termination
  by (relation "measure (\<lambda>(buf, words, i). length words - i)") auto

declare split_loop.simps [simp del]

text \<open>\<open>words[0] = line;\<close> and the loop.\<close>

definition split_words ::
  "char list \<Rightarrow> pointer list \<Rightarrow> fault + (char list \<times> pointer list)" where
  "split_words buf words =
     (if words = [] then Inl (Out_of_bounds 0)
      else split_loop buf (words[0 := Some 0]) 1)"

text \<open>
  The argument vector that \<open>execv\<close> reads from \<open>words\<close>: the strings at the pointers before
  the first \<open>NULL\<close>.
\<close>

fun argv_of :: "char list \<Rightarrow> pointer list \<Rightarrow> string list" where
  "argv_of buf [] = []"
| "argv_of buf (None # ws) = []"
| "argv_of buf (Some p # ws) = cstring_at buf p # argv_of buf ws"

text \<open>
  Splitting a text at every single space, as a function on strings: the fields between
  consecutive spaces, empty ones included. It is what the pointer loop is compared with.
\<close>

fun space_fields :: "string \<Rightarrow> string list" where
  "space_fields [] = [[]]"
| "space_fields (c # cs) =
     (if c = space then [] # space_fields cs
      else (case space_fields cs of [] \<Rightarrow> [[c]] | f # fs \<Rightarrow> (c # f) # fs))"

fun join_spaces :: "string list \<Rightarrow> string" where
  "join_spaces [] = []"
| "join_spaces [w] = w"
| "join_spaces (w # ws) = w @ space # join_spaces ws"

text \<open>
  The text that a terminal user typed on a line is the line without its newline; the text
  that the interpreter goes on with is the C string at the start of the buffer after
  \<open>line[n - 1] = '\0'\<close>.
\<close>

definition typed_text :: "string \<Rightarrow> string" where
  "typed_text line = (if line \<noteq> [] \<and> last line = newline then butlast line else line)"

definition command_text :: "string \<Rightarrow> string" where
  "command_text line = cstring_at (erase_last line) 0"

section \<open>Processes, system calls and what a process is seen doing\<close>

text \<open>
  Every program of the tutorial is a \<open>main\<close> that makes a few system calls. A run is
  recorded as the list of the calls of each process, in order, with their results.
\<close>

datatype event =
    Getline string
  | Getline_eof
  | Pipe nat nat
  | Fork int
  | Dup2 nat nat
  | Close nat
  | Execv string "string list" "string option"
  | Perror string
  | Waitpid int "int option"
  | Status_report int
  | Printf string
  | Exit int
  | Crash fault

text \<open>
  What the kernel decides and the program cannot: the value of the \<open>k\<close>-th \<open>fork\<close> (the
  positive process id of a new child; any other value stands for a failed call, which
  returns \<open>-1\<close>), whether \<open>execv\<close> of a path fails (and with which error text), and the
  wait status with which the program run by the \<open>k\<close>-th child ends.
\<close>

record kernel =
  fork_result :: "nat \<Rightarrow> int"
  execv_error :: "string \<Rightarrow> string list \<Rightarrow> string option"
  program_status :: "nat \<Rightarrow> int"

text \<open>
  The wait status of a process that ends with \<open>exit(c)\<close> or by \<open>return c\<close> from \<open>main\<close>:
  the low eight bits of \<open>c\<close>, shifted left by eight (Linux).
\<close>

definition W_EXITCODE :: "int \<Rightarrow> int" where
  "W_EXITCODE c = (c mod 256) * 256"

subsection \<open>Descriptor tables\<close>

text \<open>
  An open descriptor refers to a file inherited from whoever started the program, or to
  one end of a pipe that the program made itself; pipes are numbered in the order of
  their creation. The table is the list of its entries from descriptor 0 on, closed
  descriptors being \<open>None\<close>; descriptors past the end are closed.
\<close>

datatype 'f open_file = Inherited 'f | Pipe_read_end nat | Pipe_write_end nat

type_synonym 'f fd_table = "'f open_file option list"

definition fd_lookup :: "'a option list \<Rightarrow> nat \<Rightarrow> 'a option" where
  "fd_lookup t fd = (if fd < length t then t ! fd else None)"

fun lowest_free :: "'f fd_table \<Rightarrow> nat" where
  "lowest_free [] = 0"
| "lowest_free (None # t) = 0"
| "lowest_free (Some f # t) = Suc (lowest_free t)"

definition install :: "'f fd_table \<Rightarrow> nat \<Rightarrow> 'f open_file \<Rightarrow> 'f fd_table" where
  "install t fd f =
     (if fd < length t then t[fd := Some f]
      else t @ replicate (fd - length t) None @ [Some f])"

text \<open>\<open>close(fd)\<close>; closing a descriptor that is not open changes nothing.\<close>

definition fd_close :: "'f fd_table \<Rightarrow> nat \<Rightarrow> 'f fd_table" where
  "fd_close t fd = (if fd < length t then t[fd := None] else t)"

text \<open>
  \<open>dup2(old, new)\<close>: \<open>new\<close> is closed if open and then refers to the file of \<open>old\<close>; nothing
  happens when \<open>old\<close> is not open or when both are the same descriptor.
\<close>

definition fd_dup2 :: "'f fd_table \<Rightarrow> nat \<Rightarrow> nat \<Rightarrow> 'f fd_table" where
  "fd_dup2 t old new =
     (case fd_lookup t old of
        None \<Rightarrow> t
      | Some f \<Rightarrow> if old = new then t else install t new f)"

fun is_pipe_end :: "'f open_file option \<Rightarrow> bool" where
  "is_pipe_end (Some (Pipe_read_end k)) = True"
| "is_pipe_end (Some (Pipe_write_end k)) = True"
| "is_pipe_end _ = False"

definition open_pipe_fds :: "'f fd_table \<Rightarrow> nat list" where
  "open_pipe_fds t = filter (\<lambda>fd. is_pipe_end (t ! fd)) [0..<length t]"

subsection \<open>Processes\<close>

text \<open>
  A process: its id, its descriptor table, the number of pipes it has made, the program
  that \<open>execv\<close> has put in place of \<open>main\<close> (\<open>None\<close> while \<open>main\<close> still runs), and its calls
  so far. The table of a process that has ended is the one it ended with.
\<close>

record 'f proc =
  pid :: int
  fds :: "'f fd_table"
  npipes :: nat
  program :: "(string \<times> string list) option"
  trace :: "event list"

definition initial_proc :: "int \<Rightarrow> 'f option list \<Rightarrow> 'f proc" where
  "initial_proc p t =
     \<lparr>pid = p, fds = map (map_option Inherited) t, npipes = 0, program = None, trace = []\<rparr>"

definition log :: "event \<Rightarrow> 'f proc \<Rightarrow> 'f proc" where
  "log e p = p\<lparr>trace := trace p @ [e]\<rparr>"

text \<open>
  \<open>pipe(pipe_fds)\<close>: the two lowest free descriptors, the read end first. No program of
  the tutorial looks at the value the call returns; it is modelled where it succeeds.
\<close>

definition sys_pipe :: "'f proc \<Rightarrow> (nat \<times> nat) \<times> 'f proc" where
  "sys_pipe p =
     (let r = lowest_free (fds p);
          t = install (fds p) r (Pipe_read_end (npipes p));
          w = lowest_free t;
          t = install t w (Pipe_write_end (npipes p))
      in ((r, w), log (Pipe r w) (p\<lparr>fds := t, npipes := Suc (npipes p)\<rparr>)))"

definition sys_dup2 :: "nat \<Rightarrow> nat \<Rightarrow> 'f proc \<Rightarrow> 'f proc" where
  "sys_dup2 old new p = log (Dup2 old new) (p\<lparr>fds := fd_dup2 (fds p) old new\<rparr>)"

definition sys_close :: "nat \<Rightarrow> 'f proc \<Rightarrow> 'f proc" where
  "sys_close fd p = log (Close fd) (p\<lparr>fds := fd_close (fds p) fd\<rparr>)"

text \<open>
  \<open>fork()\<close>, given the kernel's value \<open>r\<close>: the value returned in the caller, the caller,
  and the child if there is one. The child is a copy of the caller with its own id; its
  list of calls starts empty. In the child \<open>fork\<close> returns 0.
\<close>

definition sys_fork :: "int \<Rightarrow> 'f proc \<Rightarrow> int \<times> 'f proc \<times> 'f proc option" where
  "sys_fork r p =
     (if 0 < r then (r, log (Fork r) p, Some (p\<lparr>pid := r, trace := []\<rparr>))
      else (- 1, log (Fork (- 1)) p, None))"

text \<open>
  \<open>execv(path, argv)\<close>: on success the process runs the program from then on, with the
  descriptor table as it is; on failure the call returns and \<open>main\<close> goes on.
\<close>

definition sys_execv :: "kernel \<Rightarrow> string \<Rightarrow> string list \<Rightarrow> 'f proc \<Rightarrow> 'f proc" where
  "sys_execv K path argv p =
     (case execv_error K path argv of
        None \<Rightarrow> log (Execv path argv None) (p\<lparr>program := Some (path, argv)\<rparr>)
      | Some e \<Rightarrow> log (Execv path argv (Some e)) p)"

text \<open>The statements of \<open>main\<close> after an \<open>execv\<close> run only if the call returned.\<close>

definition sys_perror :: "string \<Rightarrow> 'f proc \<Rightarrow> 'f proc" where
  "sys_perror msg p = (if program p = None then log (Perror msg) p else p)"

definition sys_printf :: "string \<Rightarrow> 'f proc \<Rightarrow> 'f proc" where
  "sys_printf msg p = (if program p = None then log (Printf msg) p else p)"

definition return_from_main :: "int \<Rightarrow> 'f proc \<Rightarrow> 'f proc" where
  "return_from_main c p = (if program p = None then log (Exit c) p else p)"

text \<open>
  After \<open>fork\<close> the same code runs in the caller, with the value that \<open>fork\<close> returned
  there, and in the child, with 0: the processes of the run are the caller first, then
  the child.
\<close>

definition both_sides ::
  "(int \<Rightarrow> 'f proc \<Rightarrow> 'f proc) \<Rightarrow> int \<times> 'f proc \<times> 'f proc option \<Rightarrow> 'f proc list" where
  "both_sides body forked =
     (case forked of (ret, parent, child) \<Rightarrow>
        body ret parent # (case child of None \<Rightarrow> [] | Some c \<Rightarrow> [body 0 c]))"

section \<open>ls-shell.c\<close>

definition ls_argv :: "string list" where
  "ls_argv = [''/bin/ls'']"

text \<open>
  \<open>if (!fork()) { execv("/bin/ls", ls_argv); perror(...); return 1; }\<close>
  \<open>printf("hope that worked\n"); return 0;\<close>
\<close>

definition ls_shell_after_fork :: "kernel \<Rightarrow> int \<Rightarrow> 'f proc \<Rightarrow> 'f proc" where
  "ls_shell_after_fork K ret p =
     (if ret = 0 then
        return_from_main 1
          (sys_perror (''uh oh, execv() returned'' @ [newline])
             (sys_execv K ''/bin/ls'' ls_argv p))
      else return_from_main 0 (sys_printf (''hope that worked'' @ [newline]) p))"

definition ls_shell_main :: "kernel \<Rightarrow> 'f proc \<Rightarrow> 'f proc list" where
  "ls_shell_main K p0 = both_sides (ls_shell_after_fork K) (sys_fork (fork_result K 0) p0)"

section \<open>simple-pipe.c, the file and the listing of the tutorial text\<close>

definition ls_args :: "string list" where
  "ls_args = [''/bin/ls'']"

definition wc_args :: "string list" where
  "wc_args = [''/usr/bin/wc'', ''-l'']"

text \<open>
  The file src/simple-pipe.c. When \<open>execv\<close> returns, \<open>main\<close> runs into its closing brace,
  which returns 0.
  \<open>if (fork()) { dup2(pipe_fds[1], 1); close(pipe_fds[0]); execv("/bin/ls", ls_args); }\<close>
  \<open>else { dup2(pipe_fds[0], 0); close(pipe_fds[1]); execv("/usr/bin/wc", wc_args); }\<close>
\<close>

definition simple_pipe_c_after_fork ::
  "kernel \<Rightarrow> nat \<times> nat \<Rightarrow> int \<Rightarrow> 'f proc \<Rightarrow> 'f proc" where
  "simple_pipe_c_after_fork K pipe_fds ret p =
     return_from_main 0
       (if ret \<noteq> 0 then
          sys_execv K ''/bin/ls'' ls_args
            (sys_close (fst pipe_fds) (sys_dup2 (snd pipe_fds) 1 p))
        else
          sys_execv K ''/usr/bin/wc'' wc_args
            (sys_close (snd pipe_fds) (sys_dup2 (fst pipe_fds) 0 p)))"

definition simple_pipe_c_main :: "kernel \<Rightarrow> 'f proc \<Rightarrow> 'f proc list" where
  "simple_pipe_c_main K p0 =
     (case sys_pipe p0 of (pipe_fds, p) \<Rightarrow>
        both_sides (simple_pipe_c_after_fork K pipe_fds) (sys_fork (fork_result K 0) p))"

text \<open>
  The listing headed \<open>// simple-pipe.c\<close> in the tutorial text: each branch also closes the
  descriptor it has just duplicated.
  \<open>if (fork()) { dup2(pipe_fds[1], 1); close(pipe_fds[1]); close(pipe_fds[0]); execv(...); }\<close>
  \<open>else { dup2(pipe_fds[0], 0); close(pipe_fds[0]); close(pipe_fds[1]); execv(...); }\<close>
\<close>

definition simple_pipe_listing_after_fork ::
  "kernel \<Rightarrow> nat \<times> nat \<Rightarrow> int \<Rightarrow> 'f proc \<Rightarrow> 'f proc" where
  "simple_pipe_listing_after_fork K pipe_fds ret p =
     return_from_main 0
       (if ret \<noteq> 0 then
          sys_execv K ''/bin/ls'' ls_args
            (sys_close (fst pipe_fds)
               (sys_close (snd pipe_fds) (sys_dup2 (snd pipe_fds) 1 p)))
        else
          sys_execv K ''/usr/bin/wc'' wc_args
            (sys_close (snd pipe_fds)
               (sys_close (fst pipe_fds) (sys_dup2 (fst pipe_fds) 0 p))))"

definition simple_pipe_listing_main :: "kernel \<Rightarrow> 'f proc \<Rightarrow> 'f proc list" where
  "simple_pipe_listing_main K p0 =
     (case sys_pipe p0 of (pipe_fds, p) \<Rightarrow>
        both_sides (simple_pipe_listing_after_fork K pipe_fds) (sys_fork (fork_result K 0) p))"


fun forks :: "event list \<Rightarrow> int list" where
  "forks [] = []"
| "forks (Fork r # es) = r # forks es"
| "forks (e # es) = forks es"


fun reports :: "event list \<Rightarrow> int list" where
  "reports [] = []"
| "reports (Status_report st # es) = st # reports es"
| "reports (e # es) = reports es"

fun exec_calls :: "event list \<Rightarrow> (string \<times> string list) list" where
  "exec_calls [] = []"
| "exec_calls (Execv path argv err # es) = (path, argv) # exec_calls es"
| "exec_calls (e # es) = exec_calls es"




section \<open>argv-shell.c\<close>

text \<open>
  The child's branch, \<open>execv(words[0], words); perror("execv() failed"); return 1;\<close>:
  the calls of the child. \<open>words[0]\<close> is \<open>line\<close>, so it is never \<open>NULL\<close>.
\<close>

definition exec_path :: "char list \<Rightarrow> pointer list \<Rightarrow> string" where
  "exec_path buf words = (case words ! 0 of None \<Rightarrow> [] | Some p \<Rightarrow> cstring_at buf p)"

definition child_branch :: "kernel \<Rightarrow> char list \<Rightarrow> pointer list \<Rightarrow> event list" where
  "child_branch K buf words =
     (let path = exec_path buf words; argv = argv_of buf words in
      case execv_error K path argv of
        None \<Rightarrow> [Execv path argv None]
      | Some e \<Rightarrow> [Execv path argv (Some e), Perror ''execv() failed'', Exit 1])"

text \<open>
  The wait status of the \<open>k\<close>-th child: that of its \<open>return\<close> from \<open>main\<close> if it got there,
  else that of the program it runs.
\<close>

fun exit_code :: "event list \<Rightarrow> int option" where
  "exit_code [] = None"
| "exit_code (Exit c # es) = Some c"
| "exit_code (e # es) = exit_code es"

definition child_wait_status :: "kernel \<Rightarrow> nat \<Rightarrow> event list \<Rightarrow> int" where
  "child_wait_status K k tr =
     (case exit_code tr of None \<Rightarrow> program_status K k | Some c \<Rightarrow> W_EXITCODE c)"

text \<open>
  The parent's branch, \<open>waitpid(child, &child_status, 0); fprintf(stderr, "child exited\<close>
  \<open>with status %d\n", child_status); fflush(stderr);\<close>: its calls and the new value of
  \<open>child_status\<close>. \<open>reaped\<close> is the status that \<open>waitpid\<close> stores, \<open>None\<close> when it fails and
  stores nothing.
\<close>

definition parent_branch :: "int \<Rightarrow> int option \<Rightarrow> int \<Rightarrow> event list \<times> int" where
  "parent_branch child reaped child_status =
     (let st = (case reaped of None \<Rightarrow> child_status | Some s \<Rightarrow> s)
      in ([Waitpid child reaped, Status_report st], st))"

text \<open>
  \<open>if (child = fork()) { parent's branch } else { child's branch }\<close> for the \<open>k\<close>-th line:
  the calls of the interpreter, the children made with their calls, and \<open>child_status\<close>.
  With a child, \<open>fork\<close> returns its id in the interpreter, which takes the parent's
  branch, and 0 in the child. When \<open>fork\<close> fails it returns \<open>-1\<close>, which is not 0 either:
  the interpreter waits for any child and has none.
\<close>

definition fork_exec_wait ::
  "kernel \<Rightarrow> nat \<Rightarrow> char list \<Rightarrow> pointer list \<Rightarrow> int
     \<Rightarrow> event list \<times> (int \<times> event list) list \<times> int" where
  "fork_exec_wait K k buf words child_status =
     (let r = fork_result K k in
      if 0 < r then
        (let ctrace = child_branch K buf words in
         case parent_branch r (Some (child_wait_status K k ctrace)) child_status of
           (ptrace, st) \<Rightarrow> (Fork r # ptrace, [(r, ctrace)], st))
      else
        (case parent_branch (- 1) None child_status of
           (ptrace, st) \<Rightarrow> (Fork (- 1) # ptrace, [], st)))"

text \<open>
  A run of the interpreter: its own calls, and the children it made, each with its id and
  its calls.
\<close>

type_synonym run = "event list \<times> (int \<times> event list) list"

definition prepend_run :: "run \<Rightarrow> run \<Rightarrow> run" where
  "prepend_run a b = (fst a @ fst b, snd a @ snd b)"

text \<open>
  The loop \<open>while ((n = getline(&line, &line_size, stdin)) > 0) { ... }\<close> on the input not
  yet read, with the number \<open>k\<close> of lines done and the variables \<open>words\<close> and
  \<open>child_status\<close>, which keep their values from one line to the next. After the loop
  \<open>main\<close> runs into its closing brace, which returns 0.
\<close>

function shell_loop :: "kernel \<Rightarrow> nat \<Rightarrow> pointer list \<Rightarrow> int \<Rightarrow> string \<Rightarrow> run" where
  "shell_loop K k words child_status input =
     (case getline input of
        None \<Rightarrow> ([Getline_eof, Exit 0], [])
      | Some (line, rest) \<Rightarrow>
          (case split_words (erase_last line) words of
             Inl f \<Rightarrow> ([Getline line, Crash f], [])
           | Inr (buf, words') \<Rightarrow>
               (case fork_exec_wait K k buf words' child_status of
                  (evs, children, st) \<Rightarrow>
                    prepend_run (Getline line # evs, children)
                      (shell_loop K (Suc k) words' st rest))))"
  by pat_completeness auto
termination
proof -
  have shorter: "length rest < length s" if "getline s = Some (l, rest)" for s l rest
    using that by (induction s arbitrary: l rest) (auto split: if_splits option.splits)
  show ?thesis
    by (relation "measure (\<lambda>(K, k, words, child_status, input). length input)")
       (auto dest: shorter)
qed

declare shell_loop.simps [simp del]

text \<open>
  \<open>main\<close>: the array \<open>words\<close> has 256 entries; it and \<open>child_status\<close> are not initialised,
  so what they hold at the start is arbitrary.
\<close>

definition argv_shell_main :: "kernel \<Rightarrow> (nat \<Rightarrow> pointer) \<Rightarrow> int \<Rightarrow> string \<Rightarrow> run" where
  "argv_shell_main K words0 child_status0 input =
     shell_loop K 0 (map words0 [0..<256]) child_status0 input"

text \<open>
  Reaping, read off the calls of the interpreter: \<open>pending\<close> is the child made and not yet
  waited for. Each child is made while none is pending. While a child is pending, a
  wait names that child and collects its status, and the child is pending no longer.
  While no child is pending, no wait names a process (the only wait there is the one
  after a failed \<open>fork\<close>, \<open>waitpid(-1, ...)\<close>, which names none) and no wait collects a status:
  so no child is waited for a second time. No line is read and the run does not end
  while a child is pending.
\<close>

fun reaped_once :: "int option \<Rightarrow> event list \<Rightarrow> bool" where
  "reaped_once pending [] = (pending = None)"
| "reaped_once pending (Fork r # es) =
     (if 0 < r then pending = None \<and> reaped_once (Some r) es else reaped_once pending es)"
| "reaped_once pending (Waitpid p st # es) =
     (case pending of
        None \<Rightarrow> \<not> 0 < p \<and> st = None \<and> reaped_once None es
      | Some c \<Rightarrow> p = c \<and> st \<noteq> None \<and> reaped_once None es)"
| "reaped_once pending (Getline l # es) = (pending = None \<and> reaped_once None es)"
| "reaped_once pending (Getline_eof # es) = (pending = None \<and> reaped_once None es)"
| "reaped_once pending (e # es) = reaped_once pending es"


text \<open>The lines read, the faults and the error reports of a run.\<close>

fun lines_read :: "event list \<Rightarrow> string list" where
  "lines_read [] = []"
| "lines_read (Getline l # es) = l # lines_read es"
| "lines_read (e # es) = lines_read es"


fun perrors :: "event list \<Rightarrow> string list" where
  "perrors [] = []"
| "perrors (Perror msg # es) = msg # perrors es"
| "perrors (e # es) = perrors es"

section \<open>An example environment\<close>

text \<open>
  A kernel for the examples: the \<open>k\<close>-th child gets the id \<open>101 + k\<close>; \<open>/bin/ls\<close> and
  \<open>/usr/bin/wc\<close> are the programs that exist and every other path fails with the text of
  \<open>ENOENT\<close>; every program that runs ends with status 0. \<open>tty3\<close> is the descriptor table of
  a program started from a terminal, \<open>null_words\<close> an array of \<open>NULL\<close> pointers.
\<close>

definition tutorial_kernel :: kernel where
  "tutorial_kernel =
     \<lparr>fork_result = (\<lambda>k. 101 + int k),
      execv_error = (\<lambda>path argv.
         if path = ''/bin/ls'' \<or> path = ''/usr/bin/wc'' then None
         else Some ''No such file or directory''),
      program_status = (\<lambda>k. 0)\<rparr>"

text \<open>The same kernel on a machine where no program can be run.\<close>

definition bare_kernel :: kernel where
  "bare_kernel =
     tutorial_kernel\<lparr>execv_error := (\<lambda>path argv. Some ''No such file or directory'')\<rparr>"


definition tty3 :: "string option list" where
  "tty3 = [Some ''tty'', Some ''tty'', Some ''tty'']"


definition null_words :: "nat \<Rightarrow> pointer" where
  "null_words k = None"

section \<open>The word loop splits at every space\<close>

lemma fields_nonempty: "space_fields s \<noteq> []"
  by (induction s) (auto split: list.splits)

lemma fields_no_space: "space \<notin> set seg \<Longrightarrow> space_fields seg = [seg]"
  by (induction seg) auto

lemma fields_split: "space \<notin> set seg \<Longrightarrow> space_fields (seg @ space # rest) = seg # space_fields rest"
  by (induction seg) auto

lemma length_fields: "length (space_fields s) = Suc (length (filter (\<lambda>c. c = space) s))"
  by (induction s) (auto split: list.splits)

lemma strchr_list_Some:
  "strchr_list xs c = Some k \<Longrightarrow>
     k < length xs \<and> xs ! k = c \<and> c \<notin> set (take k xs) \<and> NUL \<notin> set (take k xs)"
proof (induction xs arbitrary: k)
  case Nil
  then show ?case by simp
next
  case (Cons x xs)
  show ?case
  proof (cases "x = c")
    case True
    with Cons.prems show ?thesis by simp
  next
    case False
    with Cons.prems obtain j where j: "strchr_list xs c = Some j" "k = Suc j" "x \<noteq> NUL"
      by (auto split: if_splits)
    from Cons.IH [OF j(1)] j(2,3) False show ?thesis by simp
  qed
qed

lemma strchr_list_None:
  "strchr_list xs c = None \<Longrightarrow> c \<notin> set (takeWhile (\<lambda>x. x \<noteq> NUL) xs)"
  by (induction xs) (auto split: if_splits)

lemma strchr_Some:
  assumes "strchr buf p space = Some q"
  shows "p \<le> q" and "q < length buf" and "buf ! q = space"
    and "space \<notin> set (drop p (take q buf))" and "NUL \<notin> set (drop p (take q buf))"
proof -
  from assms obtain k where k: "strchr_list (drop p buf) space = Some k" "q = p + k"
    by (auto simp: strchr_def)
  from strchr_list_Some [OF k(1)]
  have *: "k < length (drop p buf)" "drop p buf ! k = space"
    "space \<notin> set (take k (drop p buf))" "NUL \<notin> set (take k (drop p buf))"
    by simp_all
  show "p \<le> q" using k(2) by simp
  show "q < length buf" using *(1) k(2) by simp
  then show "buf ! q = space" using *(2) k(2) by simp
  have "drop p (take q buf) = take k (drop p buf)"
    using k(2) by (simp add: drop_take)
  with *(3,4) show "space \<notin> set (drop p (take q buf))" "NUL \<notin> set (drop p (take q buf))"
    by simp_all
qed

lemma strchr_None:
  "strchr buf p space = None \<Longrightarrow> space \<notin> set (cstring_at buf p)"
  by (simp add: strchr_def cstring_at_def strchr_list_None)

lemma takeWhile_no_NUL:
  "NUL \<notin> set xs \<Longrightarrow>
     takeWhile (\<lambda>c. c \<noteq> NUL) (xs @ ys) = xs @ takeWhile (\<lambda>c. c \<noteq> NUL) ys"
  by (induction xs) auto

lemma cstring_at_cut:
  assumes "p \<le> q" "q < length buf" "NUL \<notin> set (drop p (take q buf))"
  shows "cstring_at buf p =
           (if buf ! q = NUL then drop p (take q buf)
            else drop p (take q buf) @ buf ! q # cstring_at buf (Suc q))"
proof -
  have "buf = take q buf @ buf ! q # drop (Suc q) buf"
    using assms(2) by (simp add: id_take_nth_drop [symmetric])
  then have "drop p buf = drop p (take q buf) @ buf ! q # drop (Suc q) buf"
    using assms(1,2) by (metis drop_append length_take min.absorb2 less_imp_le_nat diff_is_0_eq drop0)
  then show ?thesis
    using assms(3) by (simp add: cstring_at_def takeWhile_no_NUL)
qed

lemma drop_pred_Cons:
  assumes "0 < i" "i \<le> length ws"
  shows "drop (i - 1) ws = ws ! (i - 1) # drop i ws"
proof -
  from assms have "i - 1 < length ws" by simp
  from Cons_nth_drop_Suc [OF this] assms(1) show ?thesis by simp
qed

lemma split_loop_fields:
  assumes "0 < i" "words ! (i - 1) = Some p"
    and "i + length (space_fields (cstring_at buf p)) \<le> length words"
  shows "\<exists>buf' words'. split_loop buf words i = Inr (buf', words')
      \<and> length words' = length words \<and> length buf' = length buf
      \<and> take i words' = take i words \<and> take p buf' = take p buf
      \<and> argv_of buf' (drop (i - 1) words') = space_fields (cstring_at buf p)
      \<and> words' ! (i - 1 + length (space_fields (cstring_at buf p))) = None
      \<and> (\<forall>j. i \<le> j \<and> j < i - 1 + length (space_fields (cstring_at buf p)) \<longrightarrow> words' ! j \<noteq> None)"
  using assms
proof (induction buf words i arbitrary: p rule: split_loop.induct)
  case (1 buf words i)
  let ?n = "length (space_fields (cstring_at buf p))"
  have n_pos: "0 < ?n" using fields_nonempty [of "cstring_at buf p"] by simp
  with "1.prems"(3) have i_lt: "i < length words" by linarith
  then have guards: "\<not> length words \<le> i - 1" "\<not> length words \<le> i" by simp_all
  show ?case
  proof (cases "strchr buf p space")
    case None
    let ?ws = "words[i := None]"
    have run: "split_loop buf words i = Inr (buf, ?ws)"
      using guards "1.prems"(2) None by (subst split_loop.simps) simp
    have one: "space_fields (cstring_at buf p) = [cstring_at buf p]"
      using strchr_None [OF None] by (rule fields_no_space)
    have "drop (i - 1) ?ws = ?ws ! (i - 1) # drop i ?ws"
      using "1.prems"(1) i_lt by (intro drop_pred_Cons) simp_all
    also have "?ws ! (i - 1) = Some p"
      using "1.prems"(1,2) by simp
    also have "drop i ?ws = None # drop (Suc i) ?ws"
      using i_lt by (simp add: Cons_nth_drop_Suc [symmetric])
    finally have "argv_of buf (drop (i - 1) ?ws) = [cstring_at buf p]"
      by simp
    with run one i_lt "1.prems"(1) show ?thesis by auto
  next
    case (Some q)
    note q = strchr_Some [OF Some]
    let ?buf = "buf[q := NUL]" and ?ws = "words[i := Some (Suc q)]"
    let ?seg = "drop p (take q buf)"
    have run: "split_loop buf words i = split_loop ?buf ?ws (Suc i)"
      using guards "1.prems"(2) Some by (subst split_loop.simps) simp
    have cut: "cstring_at buf p = ?seg @ space # cstring_at buf (Suc q)"
      using cstring_at_cut [OF q(1,2,5)] q(3) by simp
    then have fs: "space_fields (cstring_at buf p) = ?seg # space_fields (cstring_at buf (Suc q))"
      using q(4) by (simp add: fields_split)
    have same: "cstring_at ?buf (Suc q) = cstring_at buf (Suc q)"
      by (simp add: cstring_at_def)
    let ?m = "length (space_fields (cstring_at buf (Suc q)))"
    have n_m: "?n = Suc ?m" using fs by simp
    have "\<exists>buf' words'. split_loop ?buf ?ws (Suc i) = Inr (buf', words')
      \<and> length words' = length ?ws \<and> length buf' = length ?buf
      \<and> take (Suc i) words' = take (Suc i) ?ws \<and> take (Suc q) buf' = take (Suc q) ?buf
      \<and> argv_of buf' (drop (Suc i - 1) words') = space_fields (cstring_at ?buf (Suc q))
      \<and> words' ! (Suc i - 1 + length (space_fields (cstring_at ?buf (Suc q)))) = None
      \<and> (\<forall>j. Suc i \<le> j \<and> j < Suc i - 1 + length (space_fields (cstring_at ?buf (Suc q)))
            \<longrightarrow> words' ! j \<noteq> None)"
    proof (rule "1.IH" [OF guards(1) "1.prems"(2) guards(2) Some])
      show "0 < Suc i" by simp
      show "?ws ! (Suc i - 1) = Some (Suc q)" using i_lt by simp
      show "Suc i + length (space_fields (cstring_at ?buf (Suc q))) \<le> length ?ws"
        using "1.prems"(3) n_m same by simp
    qed
    then obtain buf' words' where r:
      "split_loop ?buf ?ws (Suc i) = Inr (buf', words')"
      "length words' = length words" "length buf' = length buf"
      "take (Suc i) words' = take (Suc i) ?ws" "take (Suc q) buf' = take (Suc q) ?buf"
      "argv_of buf' (drop i words') = space_fields (cstring_at buf (Suc q))"
      "words' ! (i + ?m) = None"
      "\<forall>j. Suc i \<le> j \<and> j < i + ?m \<longrightarrow> words' ! j \<noteq> None"
      using same by auto
    have tk: "take i words' = take i words"
    proof -
      have "take i words' = take i (take (Suc i) words')" by (simp add: min_def)
      also have "\<dots> = take i (take (Suc i) ?ws)" using r(4) by simp
      also have "\<dots> = take i words" by (simp add: min_def)
      finally show ?thesis .
    qed
    have at_i: "words' ! i = Some (Suc q)"
    proof -
      have "words' ! i = take (Suc i) words' ! i" by simp
      also have "\<dots> = take (Suc i) ?ws ! i" using r(4) by simp
      also have "\<dots> = Some (Suc q)" using i_lt by simp
      finally show ?thesis .
    qed
    have at_pred: "words' ! (i - 1) = Some p"
    proof -
      have "words' ! (i - 1) = take i words' ! (i - 1)" using "1.prems"(1) by simp
      also have "\<dots> = take i words ! (i - 1)" using tk by simp
      also have "\<dots> = Some p" using "1.prems"(1,2) by simp
      finally show ?thesis .
    qed
    have tb: "take p buf' = take p buf"
    proof -
      have "take p buf' = take p (take (Suc q) buf')" using q(1) by (simp add: min_def)
      also have "\<dots> = take p (take (Suc q) ?buf)" using r(5) by simp
      also have "\<dots> = take p buf" using q(1) by (simp add: min_def)
      finally show ?thesis .
    qed
    have seg': "drop p (take q buf') = ?seg"
    proof -
      have "take q buf' = take q (take (Suc q) buf')" by (simp add: min_def)
      also have "\<dots> = take q (take (Suc q) ?buf)" using r(5) by simp
      also have "\<dots> = take q buf" by (simp add: min_def)
      finally show ?thesis by simp
    qed
    have nul': "buf' ! q = NUL"
    proof -
      have "buf' ! q = take (Suc q) buf' ! q" by simp
      also have "\<dots> = take (Suc q) ?buf ! q" using r(5) by simp
      also have "\<dots> = NUL" using q(2) by simp
      finally show ?thesis .
    qed
    have word: "cstring_at buf' p = ?seg"
      using cstring_at_cut [of p q buf'] q(1,2,5) r(3) seg' nul' by simp
    have "drop (i - 1) words' = words' ! (i - 1) # drop i words'"
      using "1.prems"(1) i_lt r(2) by (intro drop_pred_Cons) simp_all
    then have argv: "argv_of buf' (drop (i - 1) words') = space_fields (cstring_at buf p)"
      using at_pred word r(6) fs by simp
    have nonnull: "\<forall>j. i \<le> j \<and> j < i - 1 + ?n \<longrightarrow> words' ! j \<noteq> None"
    proof (intro allI impI)
      fix j assume j: "i \<le> j \<and> j < i - 1 + ?n"
      show "words' ! j \<noteq> None"
      proof (cases "j = i")
        case True
        with at_i show ?thesis by simp
      next
        case False
        with j n_m "1.prems"(1) have "Suc i \<le> j \<and> j < i + ?m" by simp
        with r(8) show ?thesis by blast
      qed
    qed
    have "words' ! (i - 1 + ?n) = None"
      using r(7) n_m "1.prems"(1) by simp
    with run r(1,2,3) tk tb argv nonnull show ?thesis by simp
  qed
qed

lemma split_words_fields:
  assumes "length (space_fields (cstring_at buf 0)) < length words"
  shows "\<exists>buf' words'. split_words buf words = Inr (buf', words')
      \<and> length words' = length words
      \<and> argv_of buf' words' = space_fields (cstring_at buf 0)
      \<and> words' ! length (space_fields (cstring_at buf 0)) = None
      \<and> (\<forall>j < length (space_fields (cstring_at buf 0)). words' ! j \<noteq> None)"
proof -
  let ?n = "length (space_fields (cstring_at buf 0))"
  let ?ws = "words[0 := Some 0]"
  from assms have ne: "words \<noteq> []" by auto
  then have start: "?ws ! (1 - 1) = Some 0" by simp
  have room: "1 + ?n \<le> length ?ws" using assms by simp
  from split_loop_fields [OF _ start room]
  obtain buf' words' where r:
    "split_loop buf ?ws 1 = Inr (buf', words')" "length words' = length words"
    "take 1 words' = take 1 ?ws"
    "argv_of buf' (drop (1 - 1) words') = space_fields (cstring_at buf 0)"
    "words' ! (1 - 1 + ?n) = None"
    "\<forall>j. 1 \<le> j \<and> j < 1 - 1 + ?n \<longrightarrow> words' ! j \<noteq> None"
    by auto
  have "words' ! 0 = take 1 words' ! 0" by simp
  also have "\<dots> = Some 0" using r(3) ne by simp
  finally have first: "words' ! 0 = Some 0" .
  have "\<forall>j < ?n. words' ! j \<noteq> None"
  proof (intro allI impI)
    fix j assume "j < ?n"
    then show "words' ! j \<noteq> None"
      using first r(6) by (cases "j = 0") auto
  qed
  with r ne show ?thesis by (simp add: split_words_def)
qed

lemma erase_last_eq: "line \<noteq> [] \<Longrightarrow> erase_last line = butlast line @ [NUL, NUL]"
proof -
  assume "line \<noteq> []"
  then have l: "line = butlast line @ [last line]" by simp
  have "erase_last line = ((butlast line @ [last line]) @ [NUL])[length line - 1 := NUL]"
    using l by (simp add: erase_last_def line_buffer_def)
  also have "\<dots> = (butlast line @ last line # [NUL])[length (butlast line) := NUL]"
    by simp
  also have "\<dots> = butlast line @ [NUL, NUL]"
    by (simp only: list_update_length)
  finally show ?thesis .
qed

lemma takeWhile_upto_NUL:
  "takeWhile (\<lambda>c. c \<noteq> NUL) (xs @ NUL # ys) = takeWhile (\<lambda>c. c \<noteq> NUL) xs"
  by (induction xs) auto

lemma command_text_eq: "command_text line = takeWhile (\<lambda>c. c \<noteq> NUL) (butlast line)"
proof (cases "line = []")
  case True
  then show ?thesis
    by (simp add: command_text_def cstring_at_def erase_last_def line_buffer_def)
next
  case False
  then show ?thesis
    by (simp add: command_text_def cstring_at_def erase_last_eq takeWhile_upto_NUL)
qed

lemma filter_takeWhile_le: "length (filter Q (takeWhile P xs)) \<le> length (filter Q xs)"
  by (induction xs) auto

lemma filter_butlast_le: "length (filter Q (butlast xs)) \<le> length (filter Q xs)"
  by (induction xs) auto

lemma fields_command_text_le: "length (space_fields (command_text line)) \<le> length (space_fields line)"
proof -
  have "length (filter (\<lambda>c. c = space) (takeWhile (\<lambda>c. c \<noteq> NUL) (butlast line)))
      \<le> length (filter (\<lambda>c. c = space) (butlast line))"
    by (rule filter_takeWhile_le)
  also have "\<dots> \<le> length (filter (\<lambda>c. c = space) line)"
    by (rule filter_butlast_le)
  finally show ?thesis
    by (simp add: length_fields command_text_eq)
qed

lemma join_spaces_Cons: "join_spaces ((c # f) # fs) = c # join_spaces (f # fs)"
  by (cases fs) auto

lemma join_spaces_fields: "join_spaces (space_fields s) = s"
proof (induction s)
  case Nil
  then show ?case by simp
next
  case (Cons c cs)
  obtain f fs where f: "space_fields cs = f # fs"
    using fields_nonempty [of cs] by (cases "space_fields cs") auto
  with Cons show ?case by (simp add: join_spaces_Cons)
qed



text \<open>
  C8. For every line with fewer than 256 space-separated fields, the word loop stores
  only inside the 256-entry array \<open>words\<close> (it ends without a fault) and leaves a \<open>NULL\<close>
  entry after the last word, with no \<open>NULL\<close> before it: the vector that \<open>execv\<close> gets is
  terminated.
\<close>

theorem words_in_bounds_and_terminated:
  assumes "length words = 256" and "length (space_fields line) < 256"
  shows "\<exists>buf words'. split_words (erase_last line) words = Inr (buf, words')
      \<and> length words' = 256
      \<and> (\<exists>n<256. words' ! n = None \<and> (\<forall>j<n. words' ! j \<noteq> None)
            \<and> length (argv_of buf words') = n)"
proof -
  let ?n = "length (space_fields (command_text line))"
  have n: "?n < 256" using fields_command_text_le [of line] assms(2) by simp
  then have "length (space_fields (cstring_at (erase_last line) 0)) < length words"
    using assms(1) by (simp add: command_text_def)
  from split_words_fields [OF this]
  obtain buf words' where r:
    "split_words (erase_last line) words = Inr (buf, words')"
    "length words' = length words"
    "argv_of buf words' = space_fields (command_text line)"
    "words' ! ?n = None" "\<forall>j < ?n. words' ! j \<noteq> None"
    by (auto simp: command_text_def)
  then have "?n < 256 \<and> words' ! ?n = None \<and> (\<forall>j < ?n. words' ! j \<noteq> None)
      \<and> length (argv_of buf words') = ?n"
    using n by simp
  then have "\<exists>n<256. words' ! n = None \<and> (\<forall>j<n. words' ! j \<noteq> None)
      \<and> length (argv_of buf words') = n"
    by blast
  with r(1,2) assms(1) show ?thesis by simp
qed

theorem words_in_bounds_and_terminated_witness:
  "length (map null_words [0..<256]) = 256
   \<and> length (space_fields (''/bin/ls -l'' @ [newline])) < 256
   \<and> (\<exists>buf words'.
        split_words (erase_last (''/bin/ls -l'' @ [newline])) (map null_words [0..<256])
          = Inr (buf, words')
        \<and> length words' = 256
        \<and> (\<exists>n<256. words' ! n = None \<and> (\<forall>j<n. words' ! j \<noteq> None)
              \<and> length (argv_of buf words') = n))"
  using words_in_bounds_and_terminated
    [of "map null_words [0..<256]" "''/bin/ls -l'' @ [newline]"]
  by simp




section \<open>Descriptor tables of the two stages of simple-pipe\<close>

lemma fd_lookup_map: "fd_lookup (map (map_option g) t) fd = map_option g (fd_lookup t fd)"
  by (simp add: fd_lookup_def)

lemma fd_lookup_install:
  "fd_lookup (install t fd f) fd' = (if fd' = fd then Some f else fd_lookup t fd')"
  by (auto simp: fd_lookup_def install_def nth_append)

lemma fd_lookup_close:
  "fd_lookup (fd_close t fd) fd' = (if fd' = fd then None else fd_lookup t fd')"
  by (auto simp: fd_lookup_def fd_close_def)

lemma fd_lookup_dup2:
  "fd_lookup (fd_dup2 t old new) fd' =
     (case fd_lookup t old of
        None \<Rightarrow> fd_lookup t fd'
      | Some f \<Rightarrow> if fd' = new then Some f else fd_lookup t fd')"
  by (auto simp: fd_dup2_def fd_lookup_install split: option.splits)

lemma fd_lookup_Nil: "fd_lookup [] fd = None"
  by (simp add: fd_lookup_def)

lemma fd_lookup_Cons_0: "fd_lookup (x # t) 0 = x"
  by (simp add: fd_lookup_def)

lemma fd_lookup_Cons_Suc: "fd_lookup (x # t) (Suc fd) = fd_lookup t fd"
  by (simp add: fd_lookup_def)

lemma lowest_free_closed: "fd_lookup t (lowest_free t) = None"
  by (induction t rule: lowest_free.induct)
     (simp_all add: fd_lookup_Nil fd_lookup_Cons_0 fd_lookup_Cons_Suc)

lemma below_lowest_free: "fd < lowest_free t \<Longrightarrow> fd_lookup t fd \<noteq> None"
proof (induction t arbitrary: fd rule: lowest_free.induct)
  case (3 f t)
  then show ?case
    by (cases fd) (simp_all add: fd_lookup_Cons_0 fd_lookup_Cons_Suc)
qed simp_all

lemma lowest_free_not_open: "fd_lookup t fd \<noteq> None \<Longrightarrow> lowest_free t \<noteq> fd"
  using lowest_free_closed [of t] by auto

lemma second_lowest_free:
  "lowest_free t < lowest_free (install t (lowest_free t) f)"
proof -
  let ?r = "lowest_free t" and ?t = "install t (lowest_free t) f"
  have "fd_lookup ?t fd \<noteq> None" if "fd \<le> ?r" for fd
    using that below_lowest_free [of fd t] by (cases "fd = ?r") (auto simp: fd_lookup_install)
  then have "\<not> lowest_free ?t \<le> ?r"
    using lowest_free_closed [of ?t] by blast
  then show ?thesis by simp
qed

lemma simple_pipe_c_run:
  fixes K :: kernel and t0 :: "'f option list" and pid0 :: int
  assumes "0 < fork_result K 0"
  defines "t \<equiv> map (map_option Inherited) t0"
  defines "r \<equiv> lowest_free t"
  defines "w \<equiv> lowest_free (install t r (Pipe_read_end 0))"
  defines "t2 \<equiv> install (install t r (Pipe_read_end 0)) w (Pipe_write_end 0)"
  defines "e1 \<equiv> execv_error K ''/bin/ls'' ls_args"
  defines "e2 \<equiv> execv_error K ''/usr/bin/wc'' wc_args"
  shows "simple_pipe_c_main K (initial_proc pid0 t0) =
    [\<lparr>pid = pid0, fds = fd_close (fd_dup2 t2 w 1) r, npipes = 1,
      program = (case e1 of None \<Rightarrow> Some (''/bin/ls'', ls_args) | Some e \<Rightarrow> None),
      trace = [Pipe r w, Fork (fork_result K 0), Dup2 w 1, Close r,
               Execv ''/bin/ls'' ls_args e1]
              @ (case e1 of None \<Rightarrow> [] | Some e \<Rightarrow> [Exit 0])\<rparr>,
     \<lparr>pid = fork_result K 0, fds = fd_close (fd_dup2 t2 r 0) w, npipes = 1,
      program = (case e2 of None \<Rightarrow> Some (''/usr/bin/wc'', wc_args) | Some e \<Rightarrow> None),
      trace = [Dup2 r 0, Close w, Execv ''/usr/bin/wc'' wc_args e2]
              @ (case e2 of None \<Rightarrow> [] | Some e \<Rightarrow> [Exit 0])\<rparr>]"
  using assms(1)
  unfolding t_def r_def w_def t2_def e1_def e2_def
  by (simp add: simple_pipe_c_main_def initial_proc_def sys_pipe_def Let_def log_def
      sys_fork_def both_sides_def simple_pipe_c_after_fork_def sys_execv_def
      sys_close_def sys_dup2_def return_from_main_def split: option.split)


lemma simple_pipe_listing_run:
  fixes K :: kernel and t0 :: "'f option list" and pid0 :: int
  assumes "0 < fork_result K 0"
  defines "t \<equiv> map (map_option Inherited) t0"
  defines "r \<equiv> lowest_free t"
  defines "w \<equiv> lowest_free (install t r (Pipe_read_end 0))"
  defines "t2 \<equiv> install (install t r (Pipe_read_end 0)) w (Pipe_write_end 0)"
  defines "e1 \<equiv> execv_error K ''/bin/ls'' ls_args"
  defines "e2 \<equiv> execv_error K ''/usr/bin/wc'' wc_args"
  shows "simple_pipe_listing_main K (initial_proc pid0 t0) =
    [\<lparr>pid = pid0, fds = fd_close (fd_close (fd_dup2 t2 w 1) w) r, npipes = 1,
      program = (case e1 of None \<Rightarrow> Some (''/bin/ls'', ls_args) | Some e \<Rightarrow> None),
      trace = [Pipe r w, Fork (fork_result K 0), Dup2 w 1, Close w, Close r,
               Execv ''/bin/ls'' ls_args e1]
              @ (case e1 of None \<Rightarrow> [] | Some e \<Rightarrow> [Exit 0])\<rparr>,
     \<lparr>pid = fork_result K 0, fds = fd_close (fd_close (fd_dup2 t2 r 0) r) w, npipes = 1,
      program = (case e2 of None \<Rightarrow> Some (''/usr/bin/wc'', wc_args) | Some e \<Rightarrow> None),
      trace = [Dup2 r 0, Close r, Close w, Execv ''/usr/bin/wc'' wc_args e2]
              @ (case e2 of None \<Rightarrow> [] | Some e \<Rightarrow> [Exit 0])\<rparr>]"
  using assms(1)
  unfolding t_def r_def w_def t2_def e1_def e2_def
  by (simp add: simple_pipe_listing_main_def initial_proc_def sys_pipe_def Let_def log_def
      sys_fork_def both_sides_def simple_pipe_listing_after_fork_def sys_execv_def
      sys_close_def sys_dup2_def return_from_main_def split: option.split)

lemma pipe_table_lookup:
  fixes t :: "'f fd_table" and n :: nat
  defines "r \<equiv> lowest_free t"
  defines "w \<equiv> lowest_free (install t r (Pipe_read_end n))"
  defines "t2 \<equiv> install (install t r (Pipe_read_end n)) w (Pipe_write_end n)"
  shows "r < w"
    and "fd_lookup t2 fd =
      (if fd = w then Some (Pipe_write_end n)
       else if fd = r then Some (Pipe_read_end n) else fd_lookup t fd)"
    and "fd_lookup t fd \<noteq> None \<Longrightarrow> fd \<noteq> r \<and> fd \<noteq> w"
proof -
  show "r < w" unfolding r_def w_def by (rule second_lowest_free)
  show "fd_lookup t2 fd =
      (if fd = w then Some (Pipe_write_end n)
       else if fd = r then Some (Pipe_read_end n) else fd_lookup t fd)"
    unfolding t2_def by (simp add: fd_lookup_install)
  assume "fd_lookup t fd \<noteq> None"
  then have "fd \<noteq> r" unfolding r_def using lowest_free_not_open by blast
  moreover from \<open>fd_lookup t fd \<noteq> None\<close>
  have "fd_lookup (install t r (Pipe_read_end n)) fd \<noteq> None"
    by (simp add: fd_lookup_install)
  then have "fd \<noteq> w" unfolding w_def using lowest_free_not_open by blast
  ultimately show "fd \<noteq> r \<and> fd \<noteq> w" by simp
qed

lemma simple_pipe_c_tables:
  fixes K :: kernel and t0 :: "'f option list" and pid0 :: int
  assumes "0 < fork_result K 0"
  defines "stages \<equiv> simple_pipe_c_main K (initial_proc pid0 t0)"
  defines "t \<equiv> map (map_option Inherited) t0"
  defines "r \<equiv> lowest_free t"
  defines "w \<equiv> lowest_free (install t r (Pipe_read_end 0))"
  shows "length stages = 2"
    and "fd_lookup (fds (stages ! 0)) fd =
      (if fd = r then None
       else if fd = 1 \<or> fd = w then Some (Pipe_write_end 0) else fd_lookup t fd)"
    and "fd_lookup (fds (stages ! Suc 0)) fd =
      (if fd = w then None
       else if fd = 0 \<or> fd = r then Some (Pipe_read_end 0) else fd_lookup t fd)"
  using pipe_table_lookup(1) [of t 0]
  unfolding stages_def simple_pipe_c_run [OF assms(1)] t_def r_def w_def
  by (simp_all add: fd_lookup_close fd_lookup_dup2 pipe_table_lookup(2))

lemma simple_pipe_listing_tables:
  fixes K :: kernel and t0 :: "'f option list" and pid0 :: int
  assumes "0 < fork_result K 0"
  defines "stages \<equiv> simple_pipe_listing_main K (initial_proc pid0 t0)"
  defines "t \<equiv> map (map_option Inherited) t0"
  defines "r \<equiv> lowest_free t"
  defines "w \<equiv> lowest_free (install t r (Pipe_read_end 0))"
  shows "length stages = 2"
    and "fd_lookup (fds (stages ! 0)) fd =
      (if fd = r \<or> fd = w then None
       else if fd = 1 then Some (Pipe_write_end 0) else fd_lookup t fd)"
    and "fd_lookup (fds (stages ! Suc 0)) fd =
      (if fd = w \<or> fd = r then None
       else if fd = 0 then Some (Pipe_read_end 0) else fd_lookup t fd)"
  using pipe_table_lookup(1) [of t 0]
  unfolding stages_def simple_pipe_listing_run [OF assms(1)] t_def r_def w_def
  by (simp_all add: fd_lookup_close fd_lookup_dup2 pipe_table_lookup(2))

lemma listing_leaves_only_standard_descriptors:
  fixes K :: kernel and t0 :: "'f option list" and pid0 :: int
  assumes "0 < fork_result K 0" and "fd_lookup t0 0 \<noteq> None" and "fd_lookup t0 1 \<noteq> None"
  defines "stages \<equiv> simple_pipe_listing_main K (initial_proc pid0 t0)"
  shows "is_pipe_end (fd_lookup (fds (stages ! 0)) fd) = (fd = 1)"
    and "is_pipe_end (fd_lookup (fds (stages ! Suc 0)) fd) = (fd = 0)"
proof -
  let ?t = "map (map_option Inherited) t0"
  have open01: "fd_lookup ?t 0 \<noteq> None" "fd_lookup ?t 1 \<noteq> None"
    using assms(2,3) by (simp_all add: fd_lookup_map)
  note away = pipe_table_lookup(3) [OF open01(1), of 0] pipe_table_lookup(3) [OF open01(2), of 0]
  have inh: "\<not> is_pipe_end (fd_lookup ?t fd)"
    by (cases "fd_lookup t0 fd") (simp_all add: fd_lookup_map)
  show "is_pipe_end (fd_lookup (fds (stages ! 0)) fd) = (fd = 1)"
    unfolding stages_def simple_pipe_listing_tables(2) [OF assms(1)]
    using away inh by auto
  show "is_pipe_end (fd_lookup (fds (stages ! Suc 0)) fd) = (fd = 0)"
    unfolding stages_def simple_pipe_listing_tables(3) [OF assms(1)]
    using away inh by auto
qed

lemma file_keeps_duplicated_descriptors:
  fixes K :: kernel and t0 :: "'f option list" and pid0 :: int
  assumes "0 < fork_result K 0" and "fd_lookup t0 0 \<noteq> None" and "fd_lookup t0 1 \<noteq> None"
  defines "stages \<equiv> simple_pipe_c_main K (initial_proc pid0 t0)"
  shows "\<exists>fd. fd \<noteq> 1 \<and> fd_lookup (fds (stages ! 0)) fd = Some (Pipe_write_end 0)"
    and "\<exists>fd. fd \<noteq> 0 \<and> fd_lookup (fds (stages ! Suc 0)) fd = Some (Pipe_read_end 0)"
proof -
  let ?t = "map (map_option Inherited) t0"
  let ?r = "lowest_free ?t"
  let ?w = "lowest_free (install ?t ?r (Pipe_read_end 0))"
  have open01: "fd_lookup ?t 0 \<noteq> None" "fd_lookup ?t 1 \<noteq> None"
    using assms(2,3) by (simp_all add: fd_lookup_map)
  note away = pipe_table_lookup(3) [OF open01(1), of 0] pipe_table_lookup(3) [OF open01(2), of 0]
  note rw = pipe_table_lookup(1) [of ?t 0]
  have "?w \<noteq> 1 \<and> fd_lookup (fds (stages ! 0)) ?w = Some (Pipe_write_end 0)"
    unfolding stages_def simple_pipe_c_tables(2) [OF assms(1)]
    using away rw by auto
  then show "\<exists>fd. fd \<noteq> 1 \<and> fd_lookup (fds (stages ! 0)) fd = Some (Pipe_write_end 0)"
    by blast
  have "?r \<noteq> 0 \<and> fd_lookup (fds (stages ! Suc 0)) ?r = Some (Pipe_read_end 0)"
    unfolding stages_def simple_pipe_c_tables(3) [OF assms(1)]
    using away rw by auto
  then show "\<exists>fd. fd \<noteq> 0 \<and> fd_lookup (fds (stages ! Suc 0)) fd = Some (Pipe_read_end 0)"
    by blast
qed

text \<open>
  C1. In the file src/simple-pipe.c, started from a terminal, each stage reaches \<open>execv\<close>
  with the pipe descriptor it has just duplicated still open: \<open>/bin/ls\<close> holds the write
  end at descriptors 1 and 4, \<open>/usr/bin/wc\<close> the read end at descriptors 0 and 3. (The
  listing of the tutorial text closes them, see \<open>listing_leaves_only_standard_descriptors\<close>.)
\<close>

theorem simple_pipe_c_keeps_pipe_descriptors_open:
  "map fds (simple_pipe_c_main tutorial_kernel (initial_proc 100 tty3)) =
     [[Some (Inherited ''tty''), Some (Pipe_write_end 0), Some (Inherited ''tty''),
       None, Some (Pipe_write_end 0)],
      [Some (Pipe_read_end 0), Some (Inherited ''tty''), Some (Inherited ''tty''),
       Some (Pipe_read_end 0), None]]"
  by code_simp

text \<open>
  C10. Started from a terminal, the file and the listing do not reach \<open>execv\<close> with the
  same open pipe descriptors: the stages of the file hold descriptors 1, 4 and 0, 3, the
  stages of the listing hold 1 and 0 only.
\<close>

theorem file_and_listing_differ_in_open_pipe_descriptors:
  "map open_pipe_fds (map fds (simple_pipe_c_main tutorial_kernel (initial_proc 100 tty3)))
     = [[1, 4], [0, 3]]
   \<and> map open_pipe_fds
        (map fds (simple_pipe_listing_main tutorial_kernel (initial_proc 100 tty3)))
     = [[1], [0]]"
  by code_simp







section \<open>The interpreter: lines, children and waits\<close>

lemma getline_nonempty: "getline input = Some (line, rest) \<Longrightarrow> line \<noteq> []"
  by (cases input) (auto split: if_splits option.splits)

lemma getline_unterminated:
  "getline input = Some (line, rest) \<Longrightarrow> last line \<noteq> newline \<Longrightarrow> rest = []"
proof (induction input arbitrary: line rest)
  case Nil
  then show ?case by simp
next
  case (Cons c cs)
  show ?case
  proof (cases "c = newline")
    case True
    with Cons.prems show ?thesis by auto
  next
    case False
    show ?thesis
    proof (cases "getline cs")
      case None
      with False Cons.prems show ?thesis by auto
    next
      case (Some lr)
      obtain l r where lr: "lr = (l, r)" by (cases lr)
      with Some False Cons.prems have eq: "line = c # l" "rest = r" by auto
      have "l \<noteq> []" using Some lr getline_nonempty by blast
      with eq Cons.prems(2) have "last l \<noteq> newline" by simp
      with Cons.IH [of l r] Some lr eq show ?thesis by simp
    qed
  qed
qed

lemma erased_line_text:
  assumes "getline input = Some (line, rest)"
  shows "erase_last line = butlast line @ [NUL, NUL]
     \<and> command_text line = takeWhile (\<lambda>c. c \<noteq> NUL) (butlast line)
     \<and> (NUL \<notin> set line \<longrightarrow>
           command_text line = butlast line
         \<and> (command_text line = typed_text line) = (last line = newline)
         \<and> (last line \<noteq> newline \<longrightarrow>
               rest = [] \<and> command_text line = butlast (typed_text line)))"
proof -
  have ne: "line \<noteq> []" using assms by (rule getline_nonempty)
  have erased: "erase_last line = butlast line @ [NUL, NUL]
      \<and> command_text line = takeWhile (\<lambda>c. c \<noteq> NUL) (butlast line)"
    using ne by (simp add: erase_last_eq command_text_eq)
  have "command_text line = butlast line
         \<and> (command_text line = typed_text line) = (last line = newline)
         \<and> (last line \<noteq> newline \<longrightarrow>
               rest = [] \<and> command_text line = butlast (typed_text line))"
    if "NUL \<notin> set line"
  proof -
    from that have "NUL \<notin> set (butlast line)" by (auto dest: in_set_butlastD)
    then have cmd: "command_text line = butlast line"
      by (auto simp: command_text_eq takeWhile_eq_all_conv)
    have shorter: "butlast line \<noteq> line"
      using ne by (metis length_butlast diff_less length_greater_0_conv less_irrefl zero_less_one)
    have iff: "(command_text line = typed_text line) = (last line = newline)"
      using ne shorter by (simp add: cmd typed_text_def)
    have "rest = [] \<and> command_text line = butlast (typed_text line)"
      if "last line \<noteq> newline"
      using that getline_unterminated [OF assms] by (simp add: cmd typed_text_def)
    with cmd iff show ?thesis by simp
  qed
  with erased show ?thesis by blast
qed

lemma command_text_of_line:
  assumes "getline input = Some (line, rest)" and "NUL \<notin> set line"
  shows "command_text line = butlast line"
    and "(command_text line = typed_text line) = (last line = newline)"
    and "last line \<noteq> newline \<Longrightarrow> rest = [] \<and> command_text line = butlast (typed_text line)"
  using erased_line_text [OF assms(1)] assms(2) by blast+

lemma fork_exec_wait_forked:
  assumes "0 < fork_result K k"
  shows "fork_exec_wait K k buf words st =
    ([Fork (fork_result K k),
      Waitpid (fork_result K k) (Some (child_wait_status K k (child_branch K buf words))),
      Status_report (child_wait_status K k (child_branch K buf words))],
     [(fork_result K k, child_branch K buf words)],
     child_wait_status K k (child_branch K buf words))"
  using assms by (simp add: fork_exec_wait_def parent_branch_def Let_def)


lemma shell_loop_eof:
  "getline input = None \<Longrightarrow>
     shell_loop K k words st input = ([Getline_eof, Exit 0], [])"
  by (subst shell_loop.simps) simp


lemma shell_loop_line:
  "getline input = Some (line, rest) \<Longrightarrow>
   split_words (erase_last line) words = Inr (buf, words') \<Longrightarrow>
   fork_exec_wait K k buf words' st = (evs, children, st') \<Longrightarrow>
     shell_loop K k words st input =
       prepend_run (Getline line # evs, children) (shell_loop K (Suc k) words' st' rest)"
  by (subst shell_loop.simps) simp

lemma split_line:
  assumes "length (space_fields line) < length words"
  shows "\<exists>buf words'. split_words (erase_last line) words = Inr (buf, words')
      \<and> length words' = length words
      \<and> argv_of buf words' = space_fields (command_text line)
      \<and> exec_path buf words' = hd (space_fields (command_text line))"
proof -
  let ?n = "length (space_fields (command_text line))"
  have "?n < length words"
    using fields_command_text_le [of line] assms by simp
  then have "length (space_fields (cstring_at (erase_last line) 0)) < length words"
    by (simp add: command_text_def)
  from split_words_fields [OF this]
  obtain buf words' where r:
    "split_words (erase_last line) words = Inr (buf, words')"
    "length words' = length words"
    "argv_of buf words' = space_fields (command_text line)"
    "\<forall>j < ?n. words' ! j \<noteq> None"
    by (auto simp: command_text_def)
  have "0 < ?n" using fields_nonempty [of "command_text line"] by simp
  with r(4) obtain p where p: "words' ! 0 = Some p" by auto
  from assms r(2) obtain ws where ws: "words' = words' ! 0 # ws"
    by (cases words') auto
  have "argv_of buf words' = cstring_at buf p # argv_of buf ws"
    by (subst ws) (simp add: p)
  then have "hd (argv_of buf words') = exec_path buf words'"
    by (simp add: exec_path_def p)
  with r(1,2,3) show ?thesis by simp
qed

lemma child_branch_calls:
  "exec_calls (child_branch K buf words) = [(exec_path buf words, argv_of buf words)]"
  by (simp add: child_branch_def Let_def split: option.split)



text \<open>
  What \<open>reaped_once\<close> refuses: a second wait for a child already reaped, whether it fails
  or collects again, a child left pending, and a wait for another process.
\<close>

lemma reaped_once_refuses:
  "\<not> reaped_once None [Fork 101, Waitpid 101 (Some 0), Waitpid 101 None]"
  "\<not> reaped_once None [Fork 101, Waitpid 101 (Some 0), Waitpid 101 (Some 0)]"
  "\<not> reaped_once None [Fork 101, Getline_eof]"
  "\<not> reaped_once None [Fork 101, Waitpid 102 (Some 0)]"
  by simp_all



lemma update_first_two:
  "2 \<le> length ws \<Longrightarrow> ws[0 := a, 1 := b] = a # b # drop 2 ws"
proof -
  assume "2 \<le> length ws"
  then obtain x y zs where "ws = x # y # zs"
    by (cases ws; cases "tl ws") auto
  then show ?thesis by simp
qed

lemma split_empty_line:
  assumes "2 \<le> length words"
  shows "split_words (erase_last [newline]) words
    = Inr ([NUL, NUL], words[0 := Some 0, 1 := None])"
proof -
  have buf: "erase_last [newline] = [NUL, NUL]"
    by (simp add: erase_last_def line_buffer_def)
  have none: "strchr [NUL, NUL] 0 space = None"
    by (simp add: strchr_def)
  from assms have ne: "words \<noteq> []" by auto
  have "split_loop [NUL, NUL] (words[0 := Some 0]) 1
      = Inr ([NUL, NUL], words[0 := Some 0, 1 := None])"
    using assms none ne by (subst split_loop.simps) simp
  with ne show ?thesis by (simp add: split_words_def buf)
qed

text \<open>
  C6, as the code has it. An empty line is run like any other line: when \<open>fork\<close> succeeds
  the interpreter makes one child, which calls \<open>execv\<close> with the empty path and the
  argument vector of one empty string, waits for it, writes one status report and goes
  on with the next line. At the end of the input the interpreter returns from \<open>main\<close>.
\<close>

theorem empty_line_is_run_like_any_other:
  assumes "length words = 256" and "0 < fork_result K k"
  shows "(\<exists>st. shell_loop K k words st0 (newline # rest) =
        prepend_run
          ([Getline [newline], Fork (fork_result K k),
            Waitpid (fork_result K k) (Some st), Status_report st],
           [(fork_result K k, child_branch K [NUL, NUL] (words[0 := Some 0, 1 := None]))])
          (shell_loop K (Suc k) (words[0 := Some 0, 1 := None]) st rest))
    \<and> exec_calls (child_branch K [NUL, NUL] (words[0 := Some 0, 1 := None])) = [([], [[]])]
    \<and> shell_loop K k words st0 [] = ([Getline_eof, Exit 0], [])"
proof -
  let ?ws = "words[0 := Some 0, 1 := None]"
  let ?c = "child_branch K [NUL, NUL] ?ws"
  from assms(1) have two: "2 \<le> length words" by simp
  have gl: "getline (newline # rest) = Some ([newline], rest)" by simp
  have "shell_loop K k words st0 (newline # rest) =
        prepend_run
          (Getline [newline] #
             [Fork (fork_result K k),
              Waitpid (fork_result K k) (Some (child_wait_status K k ?c)),
              Status_report (child_wait_status K k ?c)],
           [(fork_result K k, ?c)])
          (shell_loop K (Suc k) ?ws (child_wait_status K k ?c) rest)"
    using gl split_empty_line [OF two] fork_exec_wait_forked [OF assms(2)]
    by (rule shell_loop_line)
  then have line: "\<exists>st. shell_loop K k words st0 (newline # rest) =
        prepend_run
          ([Getline [newline], Fork (fork_result K k),
            Waitpid (fork_result K k) (Some st), Status_report st],
           [(fork_result K k, ?c)])
          (shell_loop K (Suc k) ?ws st rest)"
    by blast
  have shape: "?ws = Some 0 # None # drop 2 words"
    using two by (rule update_first_two)
  have call: "exec_calls ?c = [([], [[]])]"
    unfolding shape
    by (simp add: child_branch_def exec_path_def cstring_at_def Let_def split: option.split)
  have eof: "shell_loop K k words st0 [] = ([Getline_eof, Exit 0], [])"
    by (simp add: shell_loop_eof)
  from line call eof show ?thesis by blast
qed

theorem empty_line_is_run_like_any_other_witness:
  "length (map null_words [0..<256]) = 256
   \<and> 0 < fork_result tutorial_kernel 0
   \<and> exec_calls (child_branch tutorial_kernel [NUL, NUL]
        ((map null_words [0..<256])[0 := Some 0, 1 := None])) = [([], [[]])]
   \<and> shell_loop tutorial_kernel 0 (map null_words [0..<256]) 0 [] = ([Getline_eof, Exit 0], [])"
proof -
  have len: "length (map null_words [0..<256]) = 256" by simp
  have forked: "0 < fork_result tutorial_kernel 0" by (simp add: tutorial_kernel_def)
  from empty_line_is_run_like_any_other [OF len forked, where ?st0.0 = 0 and rest = "[]"]
  have "exec_calls (child_branch tutorial_kernel [NUL, NUL]
        ((map null_words [0..<256])[0 := Some 0, 1 := None])) = [([], [[]])]"
    and "shell_loop tutorial_kernel 0 (map null_words [0..<256]) 0 [] = ([Getline_eof, Exit 0], [])"
    by blast+
  with len forked show ?thesis by blast
qed

text \<open>
  C6 as the claim states it fails: on the input of one empty line the interpreter forks
  child 101, which fails to run the empty path and exits with 1, and writes the report
  of status 256.
\<close>

theorem empty_line_spawns_and_reports:
  "forks (fst (argv_shell_main tutorial_kernel null_words 0 [newline])) = [101]
   \<and> reports (fst (argv_shell_main tutorial_kernel null_words 0 [newline])) = [256]
   \<and> snd (argv_shell_main tutorial_kernel null_words 0 [newline])
      = [(101, [Execv [] [[]] (Some ''No such file or directory''),
                Perror ''execv() failed'', Exit 1])]"
  by code_simp

text \<open>
  C9, as the code has it. For every line of fewer than 256 fields for which \<open>fork\<close>
  succeeds, the interpreter replaces the last byte of the line by a terminator, whatever
  that byte is, before it splits: the child's \<open>execv\<close> gets the fields of the C string of
  the line without its last byte, the first of them as the path. For a line of text
  (one without a terminator byte of its own) the command run, the argument vector joined
  by single spaces, is therefore the line without its last character: it is the typed
  text exactly when the line ends with a newline, and for a line without a newline,
  which can only be the last of the input, it is the typed command with its last
  character deleted.
\<close>

theorem command_run_is_line_without_last_byte:
  assumes "getline input = Some (line, rest)" and "length words = 256"
    and "length (space_fields line) < 256" and "0 < fork_result K k"
  shows "\<exists>st words' ctrace argv.
      shell_loop K k words st0 input =
        prepend_run
          ([Getline line, Fork (fork_result K k),
            Waitpid (fork_result K k) (Some st), Status_report st],
           [(fork_result K k, ctrace)])
          (shell_loop K (Suc k) words' st rest)
    \<and> exec_calls ctrace = [(hd argv, argv)]
    \<and> argv = space_fields (takeWhile (\<lambda>c. c \<noteq> NUL) (butlast line))
    \<and> (NUL \<notin> set line \<longrightarrow>
          join_spaces argv = butlast line
        \<and> (join_spaces argv = typed_text line) = (last line = newline)
        \<and> (last line \<noteq> newline \<longrightarrow>
              rest = [] \<and> join_spaces argv = butlast (typed_text line)))"
proof -
  let ?argv = "space_fields (command_text line)"
  from assms(2,3) have "length (space_fields line) < length words" by simp
  from split_line [OF this]
  obtain buf words' where sp:
    "split_words (erase_last line) words = Inr (buf, words')"
    and argv: "argv_of buf words' = ?argv"
    and path: "exec_path buf words' = hd ?argv"
    by blast
  let ?c = "child_branch K buf words'"
  have run: "shell_loop K k words st0 input =
        prepend_run
          (Getline line #
             [Fork (fork_result K k),
              Waitpid (fork_result K k) (Some (child_wait_status K k ?c)),
              Status_report (child_wait_status K k ?c)],
           [(fork_result K k, ?c)])
          (shell_loop K (Suc k) words' (child_wait_status K k ?c) rest)"
    using assms(1) sp fork_exec_wait_forked [OF assms(4)]
    by (rule shell_loop_line)
  have calls: "exec_calls ?c = [(hd ?argv, ?argv)]"
    by (simp add: child_branch_calls argv path)
  have cut: "?argv = space_fields (takeWhile (\<lambda>c. c \<noteq> NUL) (butlast line))"
    by (simp add: command_text_eq)
  have joined: "join_spaces ?argv = command_text line"
    by (rule join_spaces_fields)
  have "join_spaces ?argv = butlast line
        \<and> (join_spaces ?argv = typed_text line) = (last line = newline)
        \<and> (last line \<noteq> newline \<longrightarrow>
              rest = [] \<and> join_spaces ?argv = butlast (typed_text line))"
    if "NUL \<notin> set line"
    unfolding joined using command_text_of_line [OF assms(1) that] by blast
  with run calls cut show ?thesis by blast
qed

theorem command_run_is_line_without_last_byte_witness:
  "getline ''/bin/ls'' = Some (''/bin/ls'', [])
   \<and> length (map null_words [0..<256]) = 256
   \<and> length (space_fields ''/bin/ls'') < 256
   \<and> 0 < fork_result tutorial_kernel 0
   \<and> NUL \<notin> set ''/bin/ls''
   \<and> last ''/bin/ls'' \<noteq> newline
   \<and> map exec_calls (map snd (snd (argv_shell_main tutorial_kernel null_words 0 ''/bin/ls'')))
        = [[(''/bin/l'', [''/bin/l''])]]
   \<and> typed_text ''/bin/ls'' = ''/bin/ls''"
proof -
  let ?words = "map null_words [0..<256]"
  have read: "getline ''/bin/ls'' = Some (''/bin/ls'', [])" by simp
  have len: "length ?words = 256" by simp
  have few: "length (space_fields ''/bin/ls'') < 256" by simp
  have forked: "0 < fork_result tutorial_kernel 0" by (simp add: tutorial_kernel_def)
  from command_run_is_line_without_last_byte [OF read len few forked, where ?st0.0 = 0]
  obtain st words' ctrace argv where r:
    "shell_loop tutorial_kernel 0 ?words 0 ''/bin/ls'' =
        prepend_run
          ([Getline ''/bin/ls'', Fork (fork_result tutorial_kernel 0),
            Waitpid (fork_result tutorial_kernel 0) (Some st), Status_report st],
           [(fork_result tutorial_kernel 0, ctrace)])
          (shell_loop tutorial_kernel (Suc 0) words' st [])"
    "exec_calls ctrace = [(hd argv, argv)]"
    "argv = space_fields (takeWhile (\<lambda>c. c \<noteq> NUL) (butlast ''/bin/ls''))"
    by blast
  from r(3) have argv: "argv = [''/bin/l'']" by simp
  have "map exec_calls (map snd (snd (argv_shell_main tutorial_kernel null_words 0 ''/bin/ls'')))
        = [[(''/bin/l'', [''/bin/l''])]]"
    unfolding argv_shell_main_def r(1)
    by (simp add: prepend_run_def shell_loop_eof r(2) argv)
  moreover have "typed_text ''/bin/ls'' = ''/bin/ls''" by (simp add: typed_text_def)
  ultimately show ?thesis using read len few forked by simp
qed

text \<open>
  C9 as the claim states it fails for a line that holds a terminator byte: the line
  \<open>/bin/ls\<close>, a zero byte, \<open>-l\<close> ends with a newline, and the command run is \<open>/bin/ls\<close>
  alone, not the typed text.
\<close>

theorem line_with_terminator_byte_is_cut_short:
  "last (''/bin/ls'' @ [NUL] @ ''-l'' @ [newline]) = newline
   \<and> lines_read (fst (argv_shell_main tutorial_kernel null_words 0
        (''/bin/ls'' @ [NUL] @ ''-l'' @ [newline])))
      = [''/bin/ls'' @ [NUL] @ ''-l'' @ [newline]]
   \<and> snd (argv_shell_main tutorial_kernel null_words 0
        (''/bin/ls'' @ [NUL] @ ''-l'' @ [newline]))
      = [(101, [Execv ''/bin/ls'' [''/bin/ls''] None])]
   \<and> typed_text (''/bin/ls'' @ [NUL] @ ''-l'' @ [newline]) = ''/bin/ls'' @ [NUL] @ ''-l''
   \<and> join_spaces [''/bin/ls''] \<noteq> typed_text (''/bin/ls'' @ [NUL] @ ''-l'' @ [newline])"
  by code_simp

lemma ls_shell_run:
  fixes K :: kernel and t0 :: "'f option list" and pid0 :: int
  assumes "0 < fork_result K 0"
  shows "map trace (ls_shell_main K (initial_proc pid0 t0)) =
     [[Fork (fork_result K 0), Printf (''hope that worked'' @ [newline]), Exit 0],
      Execv ''/bin/ls'' ls_argv (execv_error K ''/bin/ls'' ls_argv)
      # (case execv_error K ''/bin/ls'' ls_argv of
           None \<Rightarrow> []
         | Some e \<Rightarrow> [Perror (''uh oh, execv() returned'' @ [newline]), Exit 1])]"
  using assms
  by (simp add: ls_shell_main_def initial_proc_def sys_fork_def both_sides_def log_def
      ls_shell_after_fork_def sys_execv_def sys_perror_def sys_printf_def
      return_from_main_def split: option.split)

lemma simple_pipe_c_silent:
  fixes K :: kernel and t0 :: "'f option list" and pid0 :: int
  shows "\<forall>p \<in> set (simple_pipe_c_main K (initial_proc pid0 t0)).
     program p = None \<longrightarrow>
       length (exec_calls (trace p)) = 1 \<and> exit_code (trace p) = Some 0
       \<and> perrors (trace p) = []"
  by (auto simp: simple_pipe_c_main_def initial_proc_def sys_pipe_def Let_def log_def
      sys_fork_def both_sides_def simple_pipe_c_after_fork_def sys_execv_def
      sys_close_def sys_dup2_def return_from_main_def split: option.splits if_splits)

text \<open>
  C5, as the code has it. In argv-shell.c and in ls-shell.c, when \<open>fork\<close> has made the
  child and \<open>execv\<close> fails in it, the child itself reports the failure with \<open>perror\<close> and
  returns 1 from \<open>main\<close>. The parent gets no error value: in argv-shell.c it collects the
  wait status 256 of exit code 1, which is not 0, reports that number and goes on with
  the next line; in ls-shell.c it does not wait and goes on as ever. In simple-pipe.c no
  statement follows \<open>execv\<close>: a process whose one \<open>execv\<close> fails, so that it still runs
  \<open>main\<close>, reports nothing and returns 0 from \<open>main\<close>.
\<close>

theorem exec_failure_in_each_program:
  fixes K :: kernel and t0 :: "'f option list" and pid0 :: int
  shows "(getline input = Some (line, rest)
      \<and> split_words (erase_last line) words = Inr (buf, words')
      \<and> 0 < fork_result K k
      \<and> execv_error K (exec_path buf words') (argv_of buf words') = Some e
      \<longrightarrow> shell_loop K k words st input =
            prepend_run
              ([Getline line, Fork (fork_result K k),
                Waitpid (fork_result K k) (Some 256), Status_report 256],
               [(fork_result K k,
                 [Execv (exec_path buf words') (argv_of buf words') (Some e),
                  Perror ''execv() failed'', Exit 1])])
              (shell_loop K (Suc k) words' 256 rest))
    \<and> W_EXITCODE 1 = 256
    \<and> (0 < fork_result K 0 \<and> execv_error K ''/bin/ls'' ls_argv = Some e'
      \<longrightarrow> map trace (ls_shell_main K (initial_proc pid0 t0)) =
           [[Fork (fork_result K 0), Printf (''hope that worked'' @ [newline]), Exit 0],
            [Execv ''/bin/ls'' ls_argv (Some e'),
             Perror (''uh oh, execv() returned'' @ [newline]), Exit 1]])
    \<and> (\<forall>p \<in> set (simple_pipe_c_main K (initial_proc pid0 t0)).
          program p = None \<longrightarrow>
            length (exec_calls (trace p)) = 1 \<and> exit_code (trace p) = Some 0
            \<and> perrors (trace p) = [])"
proof -
  have code: "W_EXITCODE 1 = 256" by (simp add: W_EXITCODE_def)
  have shell: "shell_loop K k words st input =
            prepend_run
              ([Getline line, Fork (fork_result K k),
                Waitpid (fork_result K k) (Some 256), Status_report 256],
               [(fork_result K k,
                 [Execv (exec_path buf words') (argv_of buf words') (Some e),
                  Perror ''execv() failed'', Exit 1])])
              (shell_loop K (Suc k) words' 256 rest)"
    if gl: "getline input = Some (line, rest)"
      and sp: "split_words (erase_last line) words = Inr (buf, words')"
      and forked: "0 < fork_result K k"
      and failed: "execv_error K (exec_path buf words') (argv_of buf words') = Some e"
  proof -
    have child: "child_branch K buf words' =
        [Execv (exec_path buf words') (argv_of buf words') (Some e),
         Perror ''execv() failed'', Exit 1]"
      using failed by (simp add: child_branch_def Let_def)
    have status: "child_wait_status K k (child_branch K buf words') = 256"
      by (simp add: child child_wait_status_def code)
    have "fork_exec_wait K k buf words' st =
        ([Fork (fork_result K k), Waitpid (fork_result K k) (Some 256), Status_report 256],
         [(fork_result K k,
           [Execv (exec_path buf words') (argv_of buf words') (Some e),
            Perror ''execv() failed'', Exit 1])],
         256)"
      unfolding fork_exec_wait_forked [OF forked] status by (simp add: child)
    with gl sp show ?thesis by (rule shell_loop_line)
  qed
  have ls: "map trace (ls_shell_main K (initial_proc pid0 t0)) =
           [[Fork (fork_result K 0), Printf (''hope that worked'' @ [newline]), Exit 0],
            [Execv ''/bin/ls'' ls_argv (Some e'),
             Perror (''uh oh, execv() returned'' @ [newline]), Exit 1]]"
    if "0 < fork_result K 0" and "execv_error K ''/bin/ls'' ls_argv = Some e'"
    unfolding ls_shell_run [OF that(1)] that(2) by simp
  from shell code ls simple_pipe_c_silent [of K pid0 t0] show ?thesis by blast
qed

theorem exec_failure_in_each_program_witness:
  "getline (''/bin/l'' @ [newline]) = Some (''/bin/l'' @ [newline], [])
   \<and> split_words (erase_last (''/bin/l'' @ [newline])) (map null_words [0..<256])
       = Inr (''/bin/l'' @ [NUL, NUL], (map null_words [0..<256])[0 := Some 0, 1 := None])
   \<and> 0 < fork_result tutorial_kernel 0
   \<and> execv_error tutorial_kernel ''/bin/l'' [''/bin/l''] = Some ''No such file or directory''
   \<and> argv_shell_main tutorial_kernel null_words 0 (''/bin/l'' @ [newline])
       = ([Getline (''/bin/l'' @ [newline]), Fork 101, Waitpid 101 (Some 256),
           Status_report 256, Getline_eof, Exit 0],
          [(101, [Execv ''/bin/l'' [''/bin/l''] (Some ''No such file or directory''),
                  Perror ''execv() failed'', Exit 1])])
   \<and> 0 < fork_result bare_kernel 0
   \<and> execv_error bare_kernel ''/bin/ls'' ls_argv = Some ''No such file or directory''
   \<and> map trace (ls_shell_main bare_kernel (initial_proc 100 tty3)) =
       [[Fork 101, Printf (''hope that worked'' @ [newline]), Exit 0],
        [Execv ''/bin/ls'' [''/bin/ls''] (Some ''No such file or directory''),
         Perror (''uh oh, execv() returned'' @ [newline]), Exit 1]]
   \<and> map program (simple_pipe_c_main bare_kernel (initial_proc 100 tty3)) = [None, None]
   \<and> map exit_code (map trace (simple_pipe_c_main bare_kernel (initial_proc 100 tty3)))
       = [Some 0, Some 0]
   \<and> map perrors (map trace (simple_pipe_c_main bare_kernel (initial_proc 100 tty3)))
       = [[], []]"
proof -
  let ?line = "''/bin/l'' @ [newline]" and ?words = "map null_words [0..<256]"
  let ?buf = "''/bin/l'' @ [NUL, NUL]" and ?words' = "?words[0 := Some 0, 1 := None]"
  let ?enoent = "''No such file or directory''"
  have read: "getline ?line = Some (?line, [])" by simp
  have split: "split_words (erase_last ?line) ?words = Inr (?buf, ?words')" by code_simp
  have forked: "0 < fork_result tutorial_kernel 0" by (simp add: tutorial_kernel_def)
  have path: "exec_path ?buf ?words' = ''/bin/l''" by code_simp
  have argv: "argv_of ?buf ?words' = [''/bin/l'']" by code_simp
  have failed: "execv_error tutorial_kernel ''/bin/l'' [''/bin/l''] = Some ?enoent"
    by (simp add: tutorial_kernel_def)
  then have failed': "execv_error tutorial_kernel (exec_path ?buf ?words') (argv_of ?buf ?words')
      = Some ?enoent"
    by (simp only: path argv)
  note shell = exec_failure_in_each_program
    [where K = tutorial_kernel and input = ?line and line = ?line and rest = "[]"
       and words = ?words and buf = ?buf and words' = ?words' and k = 0 and e = ?enoent
       and st = 0,
     THEN conjunct1, rule_format, OF conjI [OF read conjI [OF split conjI [OF forked failed']]]]
  have run: "argv_shell_main tutorial_kernel null_words 0 ?line
       = ([Getline ?line, Fork 101, Waitpid 101 (Some 256),
           Status_report 256, Getline_eof, Exit 0],
          [(101, [Execv ''/bin/l'' [''/bin/l''] (Some ?enoent),
                  Perror ''execv() failed'', Exit 1])])"
    unfolding argv_shell_main_def shell path argv
    by (simp add: prepend_run_def shell_loop_eof tutorial_kernel_def)
  have forked_b: "0 < fork_result bare_kernel 0"
    by (simp add: bare_kernel_def tutorial_kernel_def)
  have failed_b: "execv_error bare_kernel ''/bin/ls'' ls_argv = Some ?enoent"
    by (simp add: bare_kernel_def)
  note rest = exec_failure_in_each_program
    [where K = bare_kernel and e' = ?enoent and ?pid0.0 = 100 and ?t0.0 = tty3,
     THEN conjunct2, THEN conjunct2]
  from rest [THEN conjunct1, rule_format, OF conjI [OF forked_b failed_b]]
  have ls: "map trace (ls_shell_main bare_kernel (initial_proc 100 tty3)) =
       [[Fork 101, Printf (''hope that worked'' @ [newline]), Exit 0],
        [Execv ''/bin/ls'' [''/bin/ls''] (Some ?enoent),
         Perror (''uh oh, execv() returned'' @ [newline]), Exit 1]]"
    by (simp add: ls_argv_def bare_kernel_def tutorial_kernel_def)
  let ?stages = "simple_pipe_c_main bare_kernel (initial_proc 100 tty3)"
  have none: "map program ?stages = [None, None]" by code_simp
  then obtain a b where stages: "?stages = [a, b]" by auto
  with none have "program a = None" "program b = None" by simp_all
  with rest [THEN conjunct2] stages
  have "exit_code (trace a) = Some 0 \<and> perrors (trace a) = []"
    "exit_code (trace b) = Some 0 \<and> perrors (trace b) = []"
    by simp_all
  then have silent: "map exit_code (map trace ?stages) = [Some 0, Some 0]"
    "map perrors (map trace ?stages) = [[], []]"
    by (simp_all add: stages)
  from read split forked failed run forked_b failed_b ls none silent
  show ?thesis by blast
qed

text \<open>
  C5 as the claim states it fails in simple-pipe.c: on a machine where neither program
  can be run, both stages return from a failed \<open>execv\<close> into the end of \<open>main\<close>, with no
  report and with exit status 0.
\<close>

theorem simple_pipe_exec_failure_is_silent:
  "map trace (simple_pipe_c_main bare_kernel (initial_proc 100 tty3)) =
     [[Pipe 3 4, Fork 101, Dup2 4 1, Close 3,
       Execv ''/bin/ls'' [''/bin/ls''] (Some ''No such file or directory''), Exit 0],
      [Dup2 3 0, Close 4,
       Execv ''/usr/bin/wc'' [''/usr/bin/wc'', ''-l''] (Some ''No such file or directory''),
       Exit 0]]"
  by code_simp

end
